theory Spec2Isabelle
  imports Complex_Main "HOL-Library.Char_ord"
begin

section \<open>Strings\<close>

text \<open>
  A Python \<open>str\<close> is a sequence of code points. A \<^typ>\<open>char\<close> stands for the code point
  of the same number, U+0000 to U+00FF; on that range \<open>str.isspace\<close>, \<open>str.strip\<close> and
  \<open>str.lower\<close> are as below (the range is closed under lower-casing). Code points
  above U+00FF are not represented.
\<close>

definition isspace :: "char \<Rightarrow> bool" where
  \<comment> \<open>tab, LF, VT, FF, CR, FS, GS, RS, US, space, NEL, NBSP\<close>
  "isspace c =
     (let n = (of_char c :: nat)
      in (9 \<le> n \<and> n \<le> 13) \<or> (28 \<le> n \<and> n \<le> 32) \<or> n = 133 \<or> n = 160)"

definition isupper :: "char \<Rightarrow> bool" where
  \<comment> \<open>A to Z, and the capital letters of the Latin-1 block (U+00D7 is the times sign)\<close>
  "isupper c =
     (let n = (of_char c :: nat)
      in (65 \<le> n \<and> n \<le> 90) \<or> (192 \<le> n \<and> n \<le> 222 \<and> n \<noteq> 215))"

definition lower_char :: "char \<Rightarrow> char" where
  "lower_char c = (if isupper c then char_of (of_char c + (32 :: nat)) else c)"

definition lower :: "string \<Rightarrow> string" where
  "lower s = map lower_char s"

definition lstrip :: "string \<Rightarrow> string" where
  "lstrip s = dropWhile isspace s"

definition rstrip :: "string \<Rightarrow> string" where
  "rstrip s = rev (dropWhile isspace (rev s))"

definition strip :: "string \<Rightarrow> string" where
  "strip s = rstrip (lstrip s)"

section \<open>Source resolver\<close>

text \<open>
  \<open>create_google_sheet_csv_url\<close> searches the URL for the pattern
  \<^verbatim>\<open>/d/([a-zA-Z0-9-_]+)\<close>. In the character class the hyphen after the range \<open>0-9\<close>
  is a literal, so the class is letters, digits, hyphen and underscore.
\<close>

definition id_char :: "char \<Rightarrow> bool" where
  "id_char c =
     ((CHR ''a'' \<le> c \<and> c \<le> CHR ''z'') \<or> (CHR ''A'' \<le> c \<and> c \<le> CHR ''Z'') \<or>
      (CHR ''0'' \<le> c \<and> c \<le> CHR ''9'') \<or> c = CHR ''-'' \<or> c = CHR ''_'')"

text \<open>
  The pattern anchored at the head of the string: the literal \<open>/d/\<close>, then the group,
  one or more class characters taken greedily. Nothing follows the group, so the
  longest run is the match. The result is \<open>match.group(1)\<close>.
\<close>

fun match_here :: "string \<Rightarrow> string option" where
  "match_here (c1 # c2 # c3 # rest) =
     (if c1 = CHR ''/'' \<and> c2 = CHR ''d'' \<and> c3 = CHR ''/'' \<and> takeWhile id_char rest \<noteq> []
      then Some (takeWhile id_char rest) else None)"
| "match_here _ = None"

text \<open>\<open>re.search\<close>: the match at the leftmost position that has one.\<close>

fun re_search :: "string \<Rightarrow> string option" where
  "re_search [] = None"
| "re_search (c # cs) =
     (case match_here (c # cs) of
        Some g \<Rightarrow> Some g
      | None \<Rightarrow> re_search cs)"

definition create_google_sheet_csv_url :: "string \<Rightarrow> string option" where
  "create_google_sheet_csv_url url =
     (case re_search url of
        Some sheet_id \<Rightarrow>
          Some (''https://docs.google.com/spreadsheets/d/'' @ sheet_id @ ''/export?format=csv'')
      | None \<Rightarrow> None)"

section \<open>Schema normalization\<close>

text \<open>
  Lines 49 to 58: every column name is stripped and lower-cased, then
  \<open>df.rename(columns={...})\<close> replaces the names that are keys of the dictionary and
  leaves every other name as it is.
\<close>

definition rename_table :: "(string \<times> string) list" where
  "rename_table =
     [(''sr.no.'', ''sr_no''),
      (''d.o.r'', ''date_of_receipt''),
      (''completion date'', ''completion_date''),
      (''action taken'', ''action_taken''),
      (''remarks'', ''remarks'')]"

definition rename_column :: "string \<Rightarrow> string" where
  "rename_column c = (case map_of rename_table c of Some v \<Rightarrow> v | None \<Rightarrow> c)"

definition normalize_columns :: "string list \<Rightarrow> string list" where
  "normalize_columns cols = map rename_column (map lower (map strip cols))"

section \<open>The fetched table\<close>

text \<open>
  \<open>pd.read_csv\<close> delivers a table: the header, and the data rows in source order. A cell
  is missing (\<open>NaN\<close>), a text, an integer or a boolean. A finite float cell is not
  represented: its \<open>str()\<close> is a floating-point rendering, never blank.
\<close>

datatype cell = NaN | Str string | Number int | Boolean bool

record frame =
  columns :: "string list"
  rows :: "cell list list"

datatype exn = KeyError string | ValueError | AttributeError | ZeroDivisionError | FetchError

text \<open>The cell of a row under column \<open>j\<close>; the parser fills a short row with \<open>NaN\<close>.\<close>

definition cell_at :: "cell list \<Rightarrow> nat \<Rightarrow> cell" where
  "cell_at r j = (if j < length r then r ! j else NaN)"

text \<open>
  \<open>df[name]\<close>: a \<open>KeyError\<close> when no column has the name, the column as a Series when
  one has, and a DataFrame of the columns when several have.
\<close>

datatype selection = Series "cell list" | DataFrame "cell list list"

definition positions :: "string \<Rightarrow> string list \<Rightarrow> nat list" where
  "positions name cols = filter (\<lambda>j. cols ! j = name) [0..<length cols]"

definition column_values :: "frame \<Rightarrow> nat \<Rightarrow> cell list" where
  "column_values df j = map (\<lambda>r. cell_at r j) (rows df)"

definition getitem :: "frame \<Rightarrow> string \<Rightarrow> exn + selection" where
  "getitem df name =
     (case positions name (columns df) of
        [] \<Rightarrow> Inl (KeyError name)
      | [j] \<Rightarrow> Inr (Series (column_values df j))
      | j # k # js \<Rightarrow> Inr (DataFrame (map (column_values df) (j # k # js))))"

section \<open>Status\<close>

definition notna :: "cell \<Rightarrow> bool" where
  "notna x = (x \<noteq> NaN)"

definition digit_char :: "nat \<Rightarrow> char" where
  "digit_char n = char_of (48 + n)"

fun digits :: "nat \<Rightarrow> string" where
  "digits n = (if n < 10 then [digit_char n] else digits (n div 10) @ [digit_char (n mod 10)])"

declare digits.simps [simp del]

fun py_str :: "cell \<Rightarrow> string" where
  "py_str NaN = ''nan''"
| "py_str (Str s) = s"
| "py_str (Number i) = (if i < 0 then CHR ''-'' # digits (nat (- i)) else digits (nat i))"
| "py_str (Boolean b) = (if b then ''True'' else ''False'')"

text \<open>Line 61, the function applied to every cell of the \<open>remarks\<close> column.\<close>

definition status_of :: "cell \<Rightarrow> string" where
  "status_of x = (if notna x \<and> strip (py_str x) \<noteq> [] then ''Completed'' else ''Pending'')"

text \<open>
  \<open>df['remarks'].apply(...)\<close>: on a Series the function is applied to each cell. On a
  DataFrame it is applied to each column, and \<open>pd.notna(x) and ...\<close> then asks for the
  truth value of a Series, which raises \<open>ValueError\<close>.
\<close>

definition classify_status :: "frame \<Rightarrow> exn + string list" where
  "classify_status df =
     (case getitem df ''remarks'' of
        Inl e \<Rightarrow> Inl e
      | Inr (Series xs) \<Rightarrow> Inr (map status_of xs)
      | Inr (DataFrame cs) \<Rightarrow> Inl ValueError)"

section \<open>Urgency\<close>

text \<open>
  The \<open>.str\<close> accessor of a Series checks the values first and raises
  \<open>AttributeError\<close> unless they are inferred as text. A column that the parser read
  holds text exactly when one of its cells is a text; a column of numbers, of booleans
  or of missing cells only is numeric or boolean (all cells missing: \<open>float64\<close>). A
  column of no rows is of object type and passes the check.
\<close>

fun is_Str :: "cell \<Rightarrow> bool" where
  "is_Str (Str s) = True"
| "is_Str _ = False"

definition str_accessor :: "cell list \<Rightarrow> exn + cell list" where
  "str_accessor xs = (if xs = [] \<or> (\<exists>x \<in> set xs. is_Str x) then Inr xs else Inl AttributeError)"

text \<open>The string methods map a text and give \<open>NaN\<close> for every other cell.\<close>

fun str_strip :: "cell \<Rightarrow> cell" where
  "str_strip (Str s) = Str (strip s)"
| "str_strip _ = NaN"

fun str_lower :: "cell \<Rightarrow> cell" where
  "str_lower (Str s) = Str (lower s)"
| "str_lower _ = NaN"

fun eq_str :: "cell \<Rightarrow> string \<Rightarrow> bool" where
  "eq_str (Str s) t = (s = t)"
| "eq_str _ t = False"

text \<open>\<open>df['priority'].str.strip().str.lower() == 'tatkal'\<close>\<close>

definition tatkal_series :: "cell list \<Rightarrow> exn + bool list" where
  "tatkal_series xs =
     (case str_accessor xs of
        Inl e \<Rightarrow> Inl e
      | Inr ys \<Rightarrow>
          (case str_accessor (map str_strip ys) of
             Inl e \<Rightarrow> Inl e
           | Inr zs \<Rightarrow> Inr (map (\<lambda>z. eq_str z ''tatkal'') (map str_lower zs))))"

definition missing_priority_message :: string where
  "missing_priority_message =
     ''The 'priority' column was not found in your Google Sheet. Tatkal tasks cannot be identified.''"

text \<open>
  Lines 65 to 69. The result is the \<open>is_tatkal\<close> column and the messages that
  \<open>st.error\<close> has shown. A DataFrame has no \<open>.str\<close>: \<open>AttributeError\<close>.
\<close>

definition classify_tatkal :: "frame \<Rightarrow> exn + (bool list \<times> string list)" where
  "classify_tatkal df =
     (if ''priority'' \<in> set (columns df) then
        (case getitem df ''priority'' of
           Inl e \<Rightarrow> Inl e
         | Inr (Series xs) \<Rightarrow>
             (case tatkal_series xs of Inl e \<Rightarrow> Inl e | Inr bs \<Rightarrow> Inr (bs, []))
         | Inr (DataFrame cs) \<Rightarrow> Inl AttributeError)
      else Inr (replicate (length (rows df)) False, [missing_priority_message]))"

section \<open>The classified dataset\<close>

record crow =
  cells :: "cell list"
  status :: string
  is_tatkal :: bool

record classified =
  ccolumns :: "string list"
  crows :: "crow list"
  notices :: "string list"

definition mk_crow :: "cell list \<times> string \<times> bool \<Rightarrow> crow" where
  "mk_crow t = (case t of (r, s, b) \<Rightarrow> \<lparr>cells = r, status = s, is_tatkal = b\<rparr>)"

text \<open>
  \<open>df[name] = values\<close>: where the header has the name the cells of that column are
  overwritten, otherwise the column is appended. The rows of a table have the width of
  its header.
\<close>

definition setitem_columns :: "string list \<Rightarrow> string \<Rightarrow> string list" where
  "setitem_columns cols name = (if name \<in> set cols then cols else cols @ [name])"

definition setitem_row :: "string list \<Rightarrow> string \<Rightarrow> cell list \<Rightarrow> cell \<Rightarrow> cell list" where
  "setitem_row cols name r v =
     (if name \<in> set cols
      then map (\<lambda>j. if cols ! j = name then v else cell_at r j) [0..<length cols]
      else map (cell_at r) [0..<length cols] @ [v])"

definition setitem :: "frame \<Rightarrow> string \<Rightarrow> cell list \<Rightarrow> frame" where
  "setitem df name vs =
     \<lparr>columns = setitem_columns (columns df) name,
      rows = map (\<lambda>(r, v). setitem_row (columns df) name r v) (zip (rows df) vs)\<rparr>"

text \<open>
  Lines 49 to 69: the header is normalized, then the columns \<open>status\<close> and \<open>is_tatkal\<close> are
  assigned, the second after the first. A record of the classified dataset is the row
  after both assignments; its two derived values are kept as fields beside the cells,
  and lines 74 to 93 read them there. That reading is the code's when the header has
  at most one column of each of the two names: with two, \<open>df['status']\<close> is a frame and
  the selections of lines 74 and 89 are not represented.
\<close>

definition classify :: "frame \<Rightarrow> exn + classified" where
  "classify df0 =
     (let df = df0\<lparr>columns := normalize_columns (columns df0)\<rparr>
      in case classify_status df of
           Inl e \<Rightarrow> Inl e
         | Inr ss \<Rightarrow>
             (let df1 = setitem df ''status'' (map Str ss)
              in case classify_tatkal df1 of
                   Inl e \<Rightarrow> Inl e
                 | Inr (bs, ns) \<Rightarrow>
                     (let df2 = setitem df1 ''is_tatkal'' (map Boolean bs)
                      in Inr \<lparr>ccolumns = columns df2,
                              crows = map mk_crow (zip (rows df2) (zip ss bs)),
                              notices = ns\<rparr>)))"

section \<open>Aggregation\<close>

definition total_tasks :: "classified \<Rightarrow> int" where
  "total_tasks d = int (length (crows d))"

definition completed_tasks :: "classified \<Rightarrow> int" where
  "completed_tasks d = int (length (filter (\<lambda>r. status r = ''Completed'') (crows d)))"

definition pending_tasks :: "classified \<Rightarrow> int" where
  "pending_tasks d = total_tasks d - completed_tasks d"

definition tatkal_df :: "classified \<Rightarrow> classified" where
  "tatkal_df d = d\<lparr>crows := filter is_tatkal (crows d)\<rparr>"

definition total_tatkal_tasks :: "classified \<Rightarrow> int" where
  "total_tatkal_tasks d = int (length (crows (tatkal_df d)))"

definition completed_tatkal_tasks :: "classified \<Rightarrow> int" where
  "completed_tatkal_tasks d =
     int (length (filter (\<lambda>r. status r = ''Completed'') (crows (tatkal_df d))))"

definition pending_tatkal_tasks :: "classified \<Rightarrow> int" where
  "pending_tatkal_tasks d = total_tatkal_tasks d - completed_tatkal_tasks d"

text \<open>
  \<open>(a / b) * 100\<close> on Python integers: \<open>ZeroDivisionError\<close> when \<open>b\<close> is zero. The value
  is kept as the exact quotient; the rounding to a double and the two-decimal format
  of the label are not represented.
\<close>

definition percentage :: "int \<Rightarrow> int \<Rightarrow> exn + rat" where
  "percentage a b = (if b = 0 then Inl ZeroDivisionError else Inr (of_int a / of_int b * 100))"

record metrics =
  n_total :: int
  n_completed :: int
  pct_completed :: rat
  n_pending :: int
  pct_pending :: rat

text \<open>Lines 73 to 83: the three metrics of the whole dataset, the percentages unguarded.\<close>

definition overall_summary :: "classified \<Rightarrow> exn + metrics" where
  "overall_summary d =
     (case percentage (completed_tasks d) (total_tasks d) of
        Inl e \<Rightarrow> Inl e
      | Inr cp \<Rightarrow>
          (case percentage (pending_tasks d) (total_tasks d) of
             Inl e \<Rightarrow> Inl e
           | Inr pp \<Rightarrow>
               Inr \<lparr>n_total = total_tasks d,
                    n_completed = completed_tasks d, pct_completed = cp,
                    n_pending = pending_tasks d, pct_pending = pp\<rparr>))"

text \<open>
  Lines 89 to 104: the metrics of the Tatkal rows, computed only when there is such a
  row; otherwise the page shows a note and no number.
\<close>

definition tatkal_summary :: "classified \<Rightarrow> exn + metrics option" where
  "tatkal_summary d =
     (if total_tatkal_tasks d > 0 then
        (case percentage (completed_tatkal_tasks d) (total_tatkal_tasks d) of
           Inl e \<Rightarrow> Inl e
         | Inr cp \<Rightarrow>
             (case percentage (pending_tatkal_tasks d) (total_tatkal_tasks d) of
                Inl e \<Rightarrow> Inl e
              | Inr pp \<Rightarrow>
                  Inr (Some \<lparr>n_total = total_tatkal_tasks d,
                             n_completed = completed_tatkal_tasks d, pct_completed = cp,
                             n_pending = pending_tatkal_tasks d, pct_pending = pp\<rparr>)))
      else Inr None)"

section \<open>The pipeline\<close>

record report =
  dataset :: classified
  overall :: metrics
  tatkal :: "metrics option"

text \<open>
  Lines 47 to 104, from the fetched table to the last metric. The charts and the raw
  table of lines 108 to 147 are not represented.
\<close>

definition pipeline :: "frame \<Rightarrow> exn + report" where
  "pipeline df =
     (case classify df of
        Inl e \<Rightarrow> Inl e
      | Inr d \<Rightarrow>
          (case overall_summary d of
             Inl e \<Rightarrow> Inl e
           | Inr m \<Rightarrow>
               (case tatkal_summary d of
                  Inl e \<Rightarrow> Inl e
                | Inr t \<Rightarrow> Inr \<lparr>dataset = d, overall = m, tatkal = t\<rparr>)))"

text \<open>
  Lines 38 to 104 and the handler of lines 152 to 154. \<open>read_csv\<close> is the fetch, a
  parameter. An exception raised up to line 104 ends the run in the handler, which
  shows the error. The outcome \<open>Summarised\<close> says that the run has shown the metrics and
  reached line 105; the charts and the raw table of lines 108 to 147, and an exception
  that they raise, are not represented.
\<close>

datatype outcome = Idle | InvalidUrl | Failed exn | Summarised report

definition app :: "(string \<Rightarrow> exn + frame) \<Rightarrow> string \<Rightarrow> outcome" where
  "app read_csv sheet_url =
     (if sheet_url = [] then Idle
      else case create_google_sheet_csv_url sheet_url of
             None \<Rightarrow> InvalidUrl
           | Some csv_export_url \<Rightarrow>
               (case read_csv csv_export_url of
                  Inl e \<Rightarrow> Failed e
                | Inr df \<Rightarrow>
                    (case pipeline df of
                       Inl e \<Rightarrow> Failed e
                     | Inr r \<Rightarrow> Summarised r)))"

section \<open>Vocabulary of the statements\<close>

text \<open>
  The URL has a segment \<open>/d/<id>\<close> at position \<open>k\<close>: the three characters \<open>/d/\<close> stand
  there, and a character of the identifier class follows.
\<close>

definition segment_at :: "string \<Rightarrow> nat \<Rightarrow> bool" where
  "segment_at url k =
     (case drop k url of
        c1 # c2 # c3 # c4 # rest \<Rightarrow> c1 = CHR ''/'' \<and> c2 = CHR ''d'' \<and> c3 = CHR ''/'' \<and> id_char c4
      | _ \<Rightarrow> False)"

text \<open>
  The normalization as the specification words it: strip, lower-case, then the rename
  table of the specification, whose first entry is \<open>sequence_no\<close>.
\<close>

definition spec_rename_table :: "(string \<times> string) list" where
  "spec_rename_table =
     [(''sr.no.'', ''sequence_no''),
      (''d.o.r'', ''date_of_receipt''),
      (''completion date'', ''completion_date''),
      (''action taken'', ''action_taken''),
      (''remarks'', ''remarks'')]"

definition spec_normalize_columns :: "string list \<Rightarrow> string list" where
  "spec_normalize_columns cols =
     map (\<lambda>c. case map_of spec_rename_table (lower (strip c)) of
                 Some v \<Rightarrow> v
               | None \<Rightarrow> lower (strip c)) cols"

text \<open>The three string steps of line 66 on one cell.\<close>

definition tatkal_cell :: "cell \<Rightarrow> bool" where
  "tatkal_cell x = eq_str (str_lower (str_strip x)) ''tatkal''"

section \<open>Example tables\<close>

text \<open>A table of two records, one completed and one urgent, and its classification.\<close>

definition ex_frame :: frame where
  "ex_frame =
     \<lparr>columns = [''Remarks'', ''Priority''],
      rows = [[Str ''done'', NaN], [Str '' '', Str '' TATKAL '']]\<rparr>"

definition ex_classified :: classified where
  "ex_classified =
     \<lparr>ccolumns = [''remarks'', ''priority'', ''status'', ''is_tatkal''],
      crows =
        [\<lparr>cells = [Str ''done'', NaN, Str ''Completed'', Boolean False],
          status = ''Completed'', is_tatkal = False\<rparr>,
         \<lparr>cells = [Str '' '', Str '' TATKAL '', Str ''Pending'', Boolean True],
          status = ''Pending'', is_tatkal = True\<rparr>],
      notices = []\<rparr>"

text \<open>
  A table that already has a \<open>Status\<close> column, with a remarks cell of every kind, and
  its classification: the cells of the column are overwritten.
\<close>

definition ex_remarks :: frame where
  "ex_remarks =
     \<lparr>columns = [''Remarks'', ''Status''],
      rows = [[Str ''ok'', Str ''old''], [Str ''  '', Str ''old''], [NaN, Str ''old''],
              [Number 7, NaN], [Boolean False, NaN]]\<rparr>"

definition ex_remarks_classified :: classified where
  "ex_remarks_classified =
     \<lparr>ccolumns = [''remarks'', ''status'', ''is_tatkal''],
      crows =
        [\<lparr>cells = [Str ''ok'', Str ''Completed'', Boolean False],
          status = ''Completed'', is_tatkal = False\<rparr>,
         \<lparr>cells = [Str ''  '', Str ''Pending'', Boolean False],
          status = ''Pending'', is_tatkal = False\<rparr>,
         \<lparr>cells = [NaN, Str ''Pending'', Boolean False],
          status = ''Pending'', is_tatkal = False\<rparr>,
         \<lparr>cells = [Number 7, Str ''Completed'', Boolean False],
          status = ''Completed'', is_tatkal = False\<rparr>,
         \<lparr>cells = [Boolean False, Str ''Completed'', Boolean False],
          status = ''Completed'', is_tatkal = False\<rparr>],
      notices = [missing_priority_message]\<rparr>"


definition ex_no_remarks :: frame where
  "ex_no_remarks =
     \<lparr>columns = [''Name'', ''Priority''], rows = [[Str ''a'', Str ''Tatkal'']]\<rparr>"

text \<open>Line 32, the URL of the sheet.\<close>

definition sheet_url :: string where
  "sheet_url =
     ''https://docs.google.com/spreadsheets/d/1qwfADBf4R2owb9LbANpUiOZ2ZoQ9Tk9IpnPz1KAPpYQ/edit?usp=sharing''"

section \<open>Facts about the string operations\<close>

lemma of_char_lower_upper:
  "isupper c \<Longrightarrow> (of_char (lower_char c) :: nat) = of_char c + 32"
  by (auto simp: isupper_def lower_char_def Let_def)

lemma lower_char_idem: "lower_char (lower_char c) = lower_char c"
proof (cases "isupper c")
  case True
  then have "\<not> isupper (lower_char c)"
    using of_char_lower_upper [OF True] by (auto simp: isupper_def Let_def)
  then show ?thesis by (simp add: lower_char_def)
next
  case False
  then show ?thesis by (simp add: lower_char_def)
qed

lemma isspace_lower_char: "isspace (lower_char c) = isspace c"
proof (cases "isupper c")
  case True
  then show ?thesis
    using of_char_lower_upper [OF True] by (auto simp: isupper_def isspace_def Let_def)
next
  case False
  then show ?thesis by (simp add: lower_char_def)
qed

lemma lower_idem: "lower (lower s) = lower s"
  by (simp add: lower_def lower_char_idem)

lemma lstrip_lower: "lstrip (lower s) = lower (lstrip s)"
  by (simp add: lstrip_def lower_def dropWhile_map comp_def isspace_lower_char)

lemma rstrip_lower: "rstrip (lower s) = lower (rstrip s)"
  by (simp add: rstrip_def lower_def dropWhile_map comp_def isspace_lower_char rev_map)

lemma strip_lower: "strip (lower s) = lower (strip s)"
  by (simp add: strip_def lstrip_lower rstrip_lower)

lemma rstrip_append: "rstrip s @ rev (takeWhile isspace (rev s)) = s"
proof -
  have "rev (takeWhile isspace (rev s) @ dropWhile isspace (rev s)) = s"
    by simp
  then show ?thesis by (simp add: rstrip_def del: takeWhile_dropWhile_id)
qed

lemma hd_rstrip: "rstrip s \<noteq> [] \<Longrightarrow> hd (rstrip s) = hd s"
  using rstrip_append [of s] by (metis hd_append2)

lemma last_rstrip: "rstrip s \<noteq> [] \<Longrightarrow> \<not> isspace (last (rstrip s))"
  by (simp add: rstrip_def last_rev hd_dropWhile)

lemma hd_lstrip: "lstrip s \<noteq> [] \<Longrightarrow> \<not> isspace (hd (lstrip s))"
  by (simp add: lstrip_def hd_dropWhile)

lemma lstrip_id: "s = [] \<or> \<not> isspace (hd s) \<Longrightarrow> lstrip s = s"
  by (cases s) (auto simp: lstrip_def)

lemma rstrip_id: "s = [] \<or> \<not> isspace (last s) \<Longrightarrow> rstrip s = s"
  by (cases s rule: rev_cases) (auto simp: rstrip_def)

lemma strip_fixed: "s = [] \<or> (\<not> isspace (hd s) \<and> \<not> isspace (last s)) \<Longrightarrow> strip s = s"
  by (auto simp: strip_def lstrip_id rstrip_id)

lemma rstrip_Nil: "rstrip [] = []"
  by (simp add: rstrip_def)

lemma strip_trimmed:
  "strip s = [] \<or> (\<not> isspace (hd (strip s)) \<and> \<not> isspace (last (strip s)))"
proof (cases "strip s = []")
  case True
  then show ?thesis by simp
next
  case False
  then have r: "rstrip (lstrip s) \<noteq> []" by (simp add: strip_def)
  then have l: "lstrip s \<noteq> []" using rstrip_Nil by auto
  have "hd (strip s) = hd (lstrip s)" using hd_rstrip [OF r] by (simp add: strip_def)
  moreover have "\<not> isspace (last (strip s))" using last_rstrip [OF r] by (simp add: strip_def)
  ultimately show ?thesis using hd_lstrip [OF l] by simp
qed

lemma strip_idem: "strip (strip s) = strip s"
  by (rule strip_fixed) (rule strip_trimmed)

lemma strip_empty_iff: "strip s = [] \<longleftrightarrow> (\<forall>c \<in> set s. isspace c)"
proof
  assume e: "strip s = []"
  have "lstrip s = []"
  proof (rule ccontr)
    assume l: "lstrip s \<noteq> []"
    from e have "\<forall>x \<in> set (lstrip s). isspace x"
      by (simp add: strip_def rstrip_def dropWhile_eq_Nil_conv)
    with l have "isspace (hd (lstrip s))" by simp
    with hd_lstrip [OF l] show False by simp
  qed
  then show "\<forall>c \<in> set s. isspace c"
    by (simp add: lstrip_def dropWhile_eq_Nil_conv)
next
  assume "\<forall>c \<in> set s. isspace c"
  then have "lstrip s = []" by (simp add: lstrip_def)
  then show "strip s = []" by (simp add: strip_def rstrip_def)
qed

lemma lower_strip_fixed: "lower (strip (lower (strip c))) = lower (strip c)"
  by (simp add: strip_lower lower_idem strip_idem)

section \<open>Schema normalization: the rename table and idempotence\<close>

lemma rename_column_fixed:
  "lower (strip n) = n \<Longrightarrow> lower (strip (rename_column n)) = rename_column n"
  by (simp add: rename_column_def rename_table_def lower_def strip_def lstrip_def rstrip_def
      isspace_def lower_char_def isupper_def)

lemma rename_column_idem: "rename_column (rename_column n) = rename_column n"
  by (simp add: rename_column_def rename_table_def)

lemma normalize_column_idem:
  "rename_column (lower (strip (rename_column (lower (strip c))))) = rename_column (lower (strip c))"
  by (simp add: rename_column_fixed [OF lower_strip_fixed] rename_column_idem)

text \<open>
  Claim C2, as amended. Every column name is stripped, then lower-cased, and then
  renamed by the table of the code, whose entry for \<open>sr.no.\<close> is \<open>sr_no\<close>; a name that
  is no key of the table stays as normalized, and \<open>remarks\<close> maps to itself. Where no
  column normalizes to \<open>sr.no.\<close>, the result is that of the specification's table.
\<close>

theorem normalize_columns_table:
  "normalize_columns cols =
     map (\<lambda>c. let n = lower (strip c)
              in if n = ''sr.no.'' then ''sr_no''
                 else if n = ''d.o.r'' then ''date_of_receipt''
                 else if n = ''completion date'' then ''completion_date''
                 else if n = ''action taken'' then ''action_taken''
                 else n) cols \<and>
   ((\<forall>c \<in> set cols. lower (strip c) \<noteq> ''sr.no.'') \<longrightarrow>
      normalize_columns cols = spec_normalize_columns cols)"
proof -
  have r: "\<And>n. rename_column n =
      (if n = ''sr.no.'' then ''sr_no''
       else if n = ''d.o.r'' then ''date_of_receipt''
       else if n = ''completion date'' then ''completion_date''
       else if n = ''action taken'' then ''action_taken''
       else n)"
    by (simp add: rename_column_def rename_table_def)
  have s: "\<And>n. n \<noteq> ''sr.no.'' \<Longrightarrow>
      (case map_of spec_rename_table n of Some v \<Rightarrow> v | None \<Rightarrow> n) = rename_column n"
    by (simp add: rename_column_def rename_table_def spec_rename_table_def)
  have 1: "normalize_columns cols =
     map (\<lambda>c. let n = lower (strip c)
              in if n = ''sr.no.'' then ''sr_no''
                 else if n = ''d.o.r'' then ''date_of_receipt''
                 else if n = ''completion date'' then ''completion_date''
                 else if n = ''action taken'' then ''action_taken''
                 else n) cols"
    unfolding normalize_columns_def Let_def map_map comp_def by (subst r) (rule refl)
  have 2: "(\<forall>c \<in> set cols. lower (strip c) \<noteq> ''sr.no.'') \<longrightarrow>
      normalize_columns cols = spec_normalize_columns cols"
    by (auto simp: normalize_columns_def spec_normalize_columns_def s)
  from 1 2 show ?thesis by (rule conjI)
qed

theorem normalize_columns_table_witness:
  "lower (strip ''D.O.R'') \<noteq> ''sr.no.'' \<and> lower (strip '' Remarks '') \<noteq> ''sr.no.'' \<and>
   lower (strip ''Priority'') \<noteq> ''sr.no.'' \<and>
   normalize_columns [''D.O.R'', '' Remarks '', ''Priority''] =
     [''date_of_receipt'', ''remarks'', ''priority''] \<and>
   normalize_columns [''D.O.R'', '' Remarks '', ''Priority''] =
     spec_normalize_columns [''D.O.R'', '' Remarks '', ''Priority'']"
proof -
  have a: "lower (strip ''D.O.R'') \<noteq> ''sr.no.''" by code_simp
  have b: "lower (strip '' Remarks '') \<noteq> ''sr.no.''" by code_simp
  have c: "lower (strip ''Priority'') \<noteq> ''sr.no.''" by code_simp
  have d: "normalize_columns [''D.O.R'', '' Remarks '', ''Priority''] =
     [''date_of_receipt'', ''remarks'', ''priority'']" by code_simp
  from a b c have "\<forall>c \<in> set [''D.O.R'', '' Remarks '', ''Priority'']. lower (strip c) \<noteq> ''sr.no.''"
    by simp
  with normalize_columns_table [of "[''D.O.R'', '' Remarks '', ''Priority'']"]
  have "normalize_columns [''D.O.R'', '' Remarks '', ''Priority''] =
     spec_normalize_columns [''D.O.R'', '' Remarks '', ''Priority'']" by blast
  with a b c d show ?thesis by blast
qed

text \<open>
  Claim C2 as the specification states it names \<open>sequence_no\<close> as the target of
  \<open>sr.no.\<close>; line 53 of the code has \<open>sr_no\<close>.
\<close>

theorem normalize_sr_no_counterexample:
  "normalize_columns [''Sr.No.''] = [''sr_no''] \<and>
   spec_normalize_columns [''Sr.No.''] = [''sequence_no''] \<and>
   normalize_columns [''Sr.No.''] \<noteq> spec_normalize_columns [''Sr.No.'']"
  by code_simp

text \<open>
  Claim C8. Normalizing an already normalized header gives the same header: the
  targets of the table are stripped and lower-case, and none of them is a key of the
  table but \<open>remarks\<close>, which maps to itself.
\<close>

theorem normalize_columns_idempotent:
  "normalize_columns (normalize_columns cols) = normalize_columns cols"
  by (simp add: normalize_columns_def comp_def normalize_column_idem)

section \<open>Source resolver: the leftmost segment\<close>

lemma takeWhile_Nil_iff: "takeWhile P xs = [] \<longleftrightarrow> xs = [] \<or> \<not> P (hd xs)"
  by (cases xs) auto

lemma match_here_Some:
  "match_here s = Some g \<longleftrightarrow> segment_at s 0 \<and> g = takeWhile id_char (drop 3 s)"
  by (cases s rule: match_here.cases)
     (auto simp: segment_at_def takeWhile_Nil_iff split: list.splits)

lemma match_here_None: "match_here s = None \<longleftrightarrow> \<not> segment_at s 0"
  using match_here_Some [of s] by (cases "match_here s") auto

lemma segment_at_Nil: "\<not> segment_at [] k"
  by (simp add: segment_at_def)

lemma segment_at_Suc: "segment_at (c # cs) (Suc k) = segment_at cs k"
  by (simp add: segment_at_def)

lemma re_search_None: "re_search url = None \<longleftrightarrow> (\<forall>k. \<not> segment_at url k)"
proof (induction url)
  case Nil
  then show ?case by (simp add: segment_at_Nil)
next
  case (Cons c cs)
  have "(\<forall>k. \<not> segment_at (c # cs) k) \<longleftrightarrow>
        \<not> segment_at (c # cs) 0 \<and> (\<forall>k. \<not> segment_at cs k)"
    by (metis segment_at_Suc not0_implies_Suc)
  with Cons show ?case
    by (simp add: match_here_None [symmetric] split: option.splits)
qed

lemma re_search_first:
  "segment_at url k \<Longrightarrow> \<forall>j<k. \<not> segment_at url j \<Longrightarrow>
   re_search url = Some (takeWhile id_char (drop 3 (drop k url)))"
proof (induction url arbitrary: k)
  case Nil
  then show ?case by (simp add: segment_at_Nil)
next
  case (Cons c cs)
  show ?case
  proof (cases k)
    case 0
    with Cons.prems(1) have "match_here (c # cs) = Some (takeWhile id_char (drop 3 (c # cs)))"
      by (simp add: match_here_Some)
    with 0 show ?thesis by simp
  next
    case (Suc k')
    with Cons.prems have "\<not> segment_at (c # cs) 0" by simp
    then have n: "match_here (c # cs) = None" by (simp add: match_here_None)
    from Suc Cons.prems have s: "segment_at cs k'" by (simp add: segment_at_Suc)
    have "\<forall>j<k'. \<not> segment_at cs j"
    proof (intro allI impI)
      fix j assume "j < k'"
      then have "Suc j < k" using Suc by simp
      with Cons.prems(2) have "\<not> segment_at (c # cs) (Suc j)" by blast
      then show "\<not> segment_at cs j" by (simp add: segment_at_Suc)
    qed
    from Cons.IH [OF s this] n Suc show ?thesis by simp
  qed
qed

lemma re_search_Some:
  assumes "re_search url = Some g"
  shows "\<exists>k. segment_at url k \<and> (\<forall>j<k. \<not> segment_at url j) \<and>
             g = takeWhile id_char (drop 3 (drop k url))"
proof -
  from assms have "\<not> (\<forall>k. \<not> segment_at url k)"
    using re_search_None [of url] by simp
  then obtain k where k: "segment_at url k" by blast
  define k0 where "k0 = (LEAST k. segment_at url k)"
  have s: "segment_at url k0"
    unfolding k0_def using k by (rule LeastI)
  have n: "\<forall>j<k0. \<not> segment_at url j"
    unfolding k0_def using not_less_Least by blast
  from re_search_first [OF s n] assms
  have "g = takeWhile id_char (drop 3 (drop k0 url))" by simp
  with s n show ?thesis by blast
qed

lemma segment_at_run:
  "segment_at url k \<Longrightarrow> takeWhile id_char (drop 3 (drop k url)) \<noteq> []"
  by (auto simp: segment_at_def simp del: drop_drop split: list.splits)

lemma segment_at_decomp:
  assumes "ident \<noteq> []" "id_char (hd ident)"
  shows "segment_at (pre @ ''/d/'' @ ident @ rest) (length pre)"
  using assms by (cases ident) (simp_all add: segment_at_def)

lemma takeWhile_ident:
  assumes "\<forall>c \<in> set ident. id_char c" "rest = [] \<or> \<not> id_char (hd rest)"
  shows "takeWhile id_char (ident @ rest) = ident"
  using assms by (cases rest) (auto simp: takeWhile_append)

lemma all_less_upt: "(\<forall>k<n. P k) \<longleftrightarrow> list_all P [0..<n]"
  by (auto simp: list_all_iff)

text \<open>
  Claim C7. When the URL reads \<open>pre\<close>, then \<open>/d/\<close>, then a non-empty run \<open>ident\<close> of
  identifier characters that ends at the end of the URL or before a character outside
  the class, and no segment \<open>/d/<id>\<close> starts inside \<open>pre\<close>, the result is the export URL
  made of exactly \<open>ident\<close>. Every result is of that kind: the export URL of the longest
  run of identifier characters after the leftmost segment. When no position of the URL
  has such a segment the result is \<open>None\<close>, and \<open>None\<close> is returned in no other case.
  The function is total: no input raises.
\<close>

theorem resolve_first_segment:
  "(url = pre @ ''/d/'' @ ident @ rest \<and> ident \<noteq> [] \<and> (\<forall>c \<in> set ident. id_char c) \<and>
      (rest = [] \<or> \<not> id_char (hd rest)) \<and> (\<forall>k<length pre. \<not> segment_at url k)
    \<longrightarrow> create_google_sheet_csv_url url =
          Some (''https://docs.google.com/spreadsheets/d/'' @ ident @ ''/export?format=csv'')) \<and>
   (\<forall>r. create_google_sheet_csv_url url = Some r \<longrightarrow>
      (\<exists>k. segment_at url k \<and> (\<forall>j<k. \<not> segment_at url j) \<and>
           takeWhile id_char (drop (k + 3) url) \<noteq> [] \<and>
           r = ''https://docs.google.com/spreadsheets/d/'' @
               takeWhile id_char (drop (k + 3) url) @ ''/export?format=csv'')) \<and>
   ((\<forall>k<length url. \<not> segment_at url k) \<longrightarrow> create_google_sheet_csv_url url = None) \<and>
   (create_google_sheet_csv_url url = None \<longrightarrow> (\<forall>k. \<not> segment_at url k))"
proof (intro conjI impI allI)
  assume a: "url = pre @ ''/d/'' @ ident @ rest \<and> ident \<noteq> [] \<and> (\<forall>c \<in> set ident. id_char c) \<and>
      (rest = [] \<or> \<not> id_char (hd rest)) \<and> (\<forall>k<length pre. \<not> segment_at url k)"
  then have u: "url = pre @ ''/d/'' @ ident @ rest" and i: "ident \<noteq> []"
    and al: "\<forall>c \<in> set ident. id_char c" and r: "rest = [] \<or> \<not> id_char (hd rest)"
    and n: "\<forall>k<length pre. \<not> segment_at url k" by blast+
  from i al have "id_char (hd ident)" by simp
  with i have s: "segment_at url (length pre)"
    unfolding u by (rule segment_at_decomp)
  have d: "drop 3 (drop (length pre) url) = ident @ rest"
    unfolding u by simp
  from re_search_first [OF s n] have "re_search url = Some (takeWhile id_char (ident @ rest))"
    by (simp only: d)
  then have "re_search url = Some ident"
    using takeWhile_ident [OF al r] by simp
  then show "create_google_sheet_csv_url url =
          Some (''https://docs.google.com/spreadsheets/d/'' @ ident @ ''/export?format=csv'')"
    by (simp add: create_google_sheet_csv_url_def)
next
  fix r
  assume "create_google_sheet_csv_url url = Some r"
  then obtain g where g: "re_search url = Some g"
    and r: "r = ''https://docs.google.com/spreadsheets/d/'' @ g @ ''/export?format=csv''"
    by (auto simp: create_google_sheet_csv_url_def split: option.splits)
  from re_search_Some [OF g] obtain k where s: "segment_at url k"
    and n: "\<forall>j<k. \<not> segment_at url j" and e: "g = takeWhile id_char (drop 3 (drop k url))"
    by blast
  have d: "drop 3 (drop k url) = drop (k + 3) url" by (simp add: add.commute)
  have "takeWhile id_char (drop (k + 3) url) \<noteq> []"
    using segment_at_run [OF s] unfolding d .
  with s n r e d show "\<exists>k. segment_at url k \<and> (\<forall>j<k. \<not> segment_at url j) \<and>
           takeWhile id_char (drop (k + 3) url) \<noteq> [] \<and>
           r = ''https://docs.google.com/spreadsheets/d/'' @
               takeWhile id_char (drop (k + 3) url) @ ''/export?format=csv''"
    by metis
next
  assume a: "\<forall>k<length url. \<not> segment_at url k"
  have "\<forall>k. \<not> segment_at url k"
  proof
    fix k show "\<not> segment_at url k"
      using a by (cases "k < length url") (simp_all add: segment_at_def)
  qed
  then show "create_google_sheet_csv_url url = None"
    by (simp add: create_google_sheet_csv_url_def re_search_None [THEN iffD2])
next
  fix k
  assume "create_google_sheet_csv_url url = None"
  then have "\<forall>k. \<not> segment_at url k"
    by (simp add: create_google_sheet_csv_url_def re_search_None split: option.splits)
  then show "\<not> segment_at url k" by blast
qed

theorem resolve_first_segment_witness:
  "create_google_sheet_csv_url ''https://example.com/spreadsheets/d/ABC123xyz/edit'' =
     Some ''https://docs.google.com/spreadsheets/d/ABC123xyz/export?format=csv'' \<and>
   create_google_sheet_csv_url ''https://example.com/d/!/edit'' = None"
proof -
  let ?pre = "''https://example.com/spreadsheets''"
  let ?url = "''https://example.com/spreadsheets/d/ABC123xyz/edit''"
  let ?bad = "''https://example.com/d/!/edit''"
  have 1: "?url = ?pre @ ''/d/'' @ ''ABC123xyz'' @ ''/edit''" by simp
  have 2: "\<forall>c \<in> set ''ABC123xyz''. id_char c" by code_simp
  have 3: "''/edit'' = [] \<or> \<not> id_char (hd ''/edit'')" by code_simp
  have "list_all (\<lambda>k. \<not> segment_at ?url k) [0..<length ?pre]" by code_simp
  then have 4: "\<forall>k<length ?pre. \<not> segment_at ?url k" by (simp only: all_less_upt)
  have "list_all (\<lambda>k. \<not> segment_at ?bad k) [0..<length ?bad]" by code_simp
  then have 5: "\<forall>k<length ?bad. \<not> segment_at ?bad k" by (simp only: all_less_upt)
  have h: "?url = ?pre @ ''/d/'' @ ''ABC123xyz'' @ ''/edit'' \<and> ''ABC123xyz'' \<noteq> [] \<and>
      (\<forall>c \<in> set ''ABC123xyz''. id_char c) \<and>
      (''/edit'' = [] \<or> \<not> id_char (hd ''/edit'')) \<and> (\<forall>k<length ?pre. \<not> segment_at ?url k)"
    using 1 2 3 4 by blast
  have a: "create_google_sheet_csv_url ?url =
     Some (''https://docs.google.com/spreadsheets/d/'' @ ''ABC123xyz'' @ ''/export?format=csv'')"
    by (rule resolve_first_segment [of ?url ?pre "''ABC123xyz''" "''/edit''", THEN conjunct1, THEN mp, OF h])
  have b: "create_google_sheet_csv_url ?bad = None"
    by (rule resolve_first_segment [of ?bad, THEN conjunct2, THEN conjunct2, THEN conjunct1, THEN mp, OF 5])
  from a b show ?thesis by simp
qed

section \<open>Column selection and classification\<close>

lemma positions_Nil_iff: "positions name cols = [] \<longleftrightarrow> name \<notin> set cols"
  by (auto simp: positions_def filter_empty_conv in_set_conv_nth)

lemma positions_snoc:
  "positions name (cols @ [c]) = positions name cols @ (if c = name then [length cols] else [])"
proof -
  have "filter (\<lambda>j. (cols @ [c]) ! j = name) [0..<length cols] =
        filter (\<lambda>j. cols ! j = name) [0..<length cols]"
    by (rule filter_cong) (auto simp: nth_append)
  then show ?thesis by (simp add: positions_def)
qed




lemma positions_member:
  "j \<in> set (positions name cols) \<longleftrightarrow> j < length cols \<and> cols ! j = name"
  by (auto simp: positions_def)

lemma positions_singleD:
  "positions name cols = [j] \<Longrightarrow> j < length cols \<and> cols ! j = name \<and> name \<in> set cols"
  using positions_member [of j name cols] by auto

lemma getitem_Inr_Series:
  "getitem df name = Inr (Series xs) \<Longrightarrow> \<exists>j. positions name (columns df) = [j] \<and> xs = column_values df j"
  by (auto simp: getitem_def split: list.splits)

lemma classify_status_Inr:
  "classify_status df = Inr ss \<Longrightarrow>
     \<exists>j. positions ''remarks'' (columns df) = [j] \<and> ss = map (\<lambda>r. status_of (cell_at r j)) (rows df)"
  by (auto simp: classify_status_def column_values_def split: sum.splits selection.splits
      dest!: getitem_Inr_Series)

lemma classify_status_single:
  "positions ''remarks'' (columns df) = [j] \<Longrightarrow>
   classify_status df = Inr (map (\<lambda>r. status_of (cell_at r j)) (rows df))"
  by (simp add: classify_status_def getitem_def column_values_def)

lemma classify_status_missing:
  "''remarks'' \<notin> set (columns df) \<Longrightarrow> classify_status df = Inl (KeyError ''remarks'')"
  by (simp add: classify_status_def getitem_def positions_Nil_iff [THEN iffD2])

lemma tatkal_cell_iff: "tatkal_cell x \<longleftrightarrow> (\<exists>s. x = Str s \<and> lower (strip s) = ''tatkal'')"
  by (cases x) (simp_all add: tatkal_cell_def)

lemma tatkal_series_Inr:
  "tatkal_series xs = Inr bs \<Longrightarrow> bs = map tatkal_cell xs"
  by (auto simp: tatkal_series_def str_accessor_def tatkal_cell_def split: sum.splits if_splits)

lemma classify_tatkal_Inr:
  "classify_tatkal df = Inr (bs, ns) \<Longrightarrow>
     (''priority'' \<notin> set (columns df) \<and> bs = map (\<lambda>r. False) (rows df) \<and> ns = [missing_priority_message]) \<or>
     (\<exists>i. positions ''priority'' (columns df) = [i] \<and>
          bs = map (\<lambda>r. tatkal_cell (cell_at r i)) (rows df) \<and> ns = [])"
  by (auto simp: classify_tatkal_def column_values_def map_replicate_const
      split: sum.splits selection.splits if_splits
      dest!: getitem_Inr_Series tatkal_series_Inr)


text \<open>Facts about the column assignment.\<close>

lemma set_setitem_columns: "set (setitem_columns cols name) = insert name (set cols)"
  by (auto simp: setitem_columns_def)

lemma positions_setitem_columns:
  "n \<noteq> name \<Longrightarrow> positions n (setitem_columns cols name) = positions n cols"
  by (simp add: setitem_columns_def positions_snoc)

lemma nth_setitem_columns:
  "k < length cols \<Longrightarrow> setitem_columns cols name ! k = cols ! k"
  by (simp add: setitem_columns_def nth_append)

lemma length_setitem_columns: "length cols \<le> length (setitem_columns cols name)"
  by (simp add: setitem_columns_def)

lemma setitem_columns_new:
  "k < length (setitem_columns cols name) \<Longrightarrow> \<not> k < length cols \<Longrightarrow>
   setitem_columns cols name ! k = name"
  by (auto simp: setitem_columns_def nth_append split: if_splits)

lemma cell_at_setitem_row_other:
  "k < length cols \<Longrightarrow> cols ! k \<noteq> name \<Longrightarrow>
   cell_at (setitem_row cols name r v) k = cell_at r k"
  by (simp add: setitem_row_def cell_at_def nth_append)

lemma cell_at_setitem_row_same:
  "k < length (setitem_columns cols name) \<Longrightarrow> setitem_columns cols name ! k = name \<Longrightarrow>
   cell_at (setitem_row cols name r v) k = v"
  by (auto simp: setitem_row_def setitem_columns_def cell_at_def nth_append split: if_splits)

lemma map_zip_same:
  "map (\<lambda>(r, v). F r v) (zip rs (map h rs)) = map (\<lambda>r. F r (h r)) rs"
  by (induction rs) simp_all

lemma setitem_map:
  "setitem df name (map h (rows df)) =
     \<lparr>columns = setitem_columns (columns df) name,
      rows = map (\<lambda>r. setitem_row (columns df) name r (h r)) (rows df)\<rparr>"
  by (simp add: setitem_def map_zip_same)

lemma zip_rows2:
  "map mk_crow (zip (map c rs) (zip (map g rs) (map f rs))) =
   map (\<lambda>r. \<lparr>cells = c r, status = g r, is_tatkal = f r\<rparr>) rs"
  by (induction rs) (simp_all add: mk_crow_def)

text \<open>
  What a successful classification looks like: one \<open>remarks\<close> column, at the same
  position as in the normalized header; a record for every source row, in order, with
  its status and with the urgency flag from the one \<open>priority\<close> column, or constantly
  false with the notice; the cells of the source under every column but \<open>status\<close> and
  \<open>is_tatkal\<close>, and the derived values under these two.
\<close>

lemma classify_Inr:
  assumes "classify df = Inr d"
  obtains j f g where
    "positions ''remarks'' (normalize_columns (columns df)) = [j]"
    "positions ''remarks'' (ccolumns d) = [j]"
    "crows d = map (\<lambda>r. \<lparr>cells = g r, status = status_of (cell_at r j), is_tatkal = f r\<rparr>) (rows df)"
    "\<forall>r k. k < length (normalize_columns (columns df)) \<and>
        normalize_columns (columns df) ! k \<noteq> ''status'' \<and>
        normalize_columns (columns df) ! k \<noteq> ''is_tatkal'' \<longrightarrow> cell_at (g r) k = cell_at r k"
    "\<forall>r k. k < length (ccolumns d) \<and> ccolumns d ! k = ''status'' \<longrightarrow>
        cell_at (g r) k = Str (status_of (cell_at r j))"
    "\<forall>r k. k < length (ccolumns d) \<and> ccolumns d ! k = ''is_tatkal'' \<longrightarrow>
        cell_at (g r) k = Boolean (f r)"
    "(''priority'' \<notin> set (normalize_columns (columns df)) \<and> ''priority'' \<notin> set (ccolumns d) \<and>
        f = (\<lambda>r. False) \<and> notices d = [missing_priority_message]) \<or>
     (\<exists>i. positions ''priority'' (normalize_columns (columns df)) = [i] \<and>
        positions ''priority'' (ccolumns d) = [i] \<and>
        f = (\<lambda>r. tatkal_cell (cell_at r i)) \<and> notices d = [])"
proof -
  define hdr where "hdr = normalize_columns (columns df)"
  define df' where "df' = df\<lparr>columns := hdr\<rparr>"
  define hdr1 where "hdr1 = setitem_columns hdr ''status''"
  define hdr2 where "hdr2 = setitem_columns hdr1 ''is_tatkal''"
  from assms obtain ss bs ns where
    s: "classify_status df' = Inr ss" and
    t: "classify_tatkal (setitem df' ''status'' (map Str ss)) = Inr (bs, ns)" and
    d: "d = \<lparr>ccolumns = columns (setitem (setitem df' ''status'' (map Str ss)) ''is_tatkal'' (map Boolean bs)),
             crows = map mk_crow (zip (rows (setitem (setitem df' ''status'' (map Str ss)) ''is_tatkal''
                        (map Boolean bs))) (zip ss bs)),
             notices = ns\<rparr>"
    by (auto simp: classify_def df'_def hdr_def Let_def split: sum.splits prod.splits)
  from classify_status_Inr [OF s] obtain j where
    j: "positions ''remarks'' hdr = [j]" and
    ss: "ss = map (\<lambda>r. status_of (cell_at r j)) (rows df)"
    by (auto simp: df'_def)
  define st where "st = (\<lambda>r. status_of (cell_at r j))"
  define c1 where "c1 = (\<lambda>r. setitem_row hdr ''status'' r (Str (st r)))"
  define df1 where "df1 = \<lparr>columns = hdr1, rows = map c1 (rows df)\<rparr>"
  have e1: "setitem df' ''status'' (map Str ss) = df1"
    using setitem_map [of df' "''status''" "\<lambda>r. Str (st r)"]
    by (simp add: ss st_def df1_def c1_def hdr1_def df'_def comp_def)
  from classify_tatkal_Inr [OF t [unfolded e1]] obtain f0 where
    bs0: "bs = map f0 (rows df1)" and
    f0: "(''priority'' \<notin> set (columns df1) \<and> f0 = (\<lambda>r. False) \<and> ns = [missing_priority_message]) \<or>
        (\<exists>i. positions ''priority'' (columns df1) = [i] \<and> f0 = (\<lambda>r. tatkal_cell (cell_at r i)) \<and> ns = [])"
    by blast
  have p1: "positions ''priority'' hdr1 = positions ''priority'' hdr"
    unfolding hdr1_def by (rule positions_setitem_columns) simp
  have p2: "positions ''priority'' hdr2 = positions ''priority'' hdr"
    unfolding hdr2_def using p1 by (simp add: positions_setitem_columns)
  have m1: "''priority'' \<in> set hdr1 \<longleftrightarrow> ''priority'' \<in> set hdr"
    by (simp add: hdr1_def set_setitem_columns)
  have m2: "''priority'' \<in> set hdr2 \<longleftrightarrow> ''priority'' \<in> set hdr"
    by (simp add: hdr2_def hdr1_def set_setitem_columns)
  define f where "f = (\<lambda>r. f0 (c1 r))"
  have bs: "bs = map f (rows df)"
    by (simp add: bs0 df1_def f_def comp_def)
  have ff: "(''priority'' \<notin> set hdr \<and> ''priority'' \<notin> set hdr2 \<and> f = (\<lambda>r. False) \<and>
              ns = [missing_priority_message]) \<or>
            (\<exists>i. positions ''priority'' hdr = [i] \<and> positions ''priority'' hdr2 = [i] \<and>
              f = (\<lambda>r. tatkal_cell (cell_at r i)) \<and> ns = [])"
    using f0
  proof
    assume "''priority'' \<notin> set (columns df1) \<and> f0 = (\<lambda>r. False) \<and> ns = [missing_priority_message]"
    then show ?thesis by (simp add: df1_def m1 m2 f_def)
  next
    assume "\<exists>i. positions ''priority'' (columns df1) = [i] \<and> f0 = (\<lambda>r. tatkal_cell (cell_at r i)) \<and> ns = []"
    then obtain i where i: "positions ''priority'' hdr = [i]"
      and fi: "f0 = (\<lambda>r. tatkal_cell (cell_at r i))" and n: "ns = []"
      by (auto simp: df1_def p1)
    from positions_singleD [OF i] have "i < length hdr" "hdr ! i \<noteq> ''status''" by simp_all
    then have "\<And>r. cell_at (c1 r) i = cell_at r i"
      by (simp add: c1_def cell_at_setitem_row_other)
    then have "f = (\<lambda>r. tatkal_cell (cell_at r i))"
      by (simp add: f_def fi)
    with i n p2 show ?thesis by simp
  qed
  define g where "g = (\<lambda>r. setitem_row hdr1 ''is_tatkal'' (c1 r) (Boolean (f r)))"
  have e2: "setitem df1 ''is_tatkal'' (map Boolean bs) = \<lparr>columns = hdr2, rows = map g (rows df)\<rparr>"
    using setitem_map [of df1 "''is_tatkal''" "\<lambda>r. Boolean (f0 r)"]
    by (simp add: bs0 df1_def hdr2_def g_def f_def comp_def)
  have cd: "ccolumns d = hdr2"
    by (simp add: d e1 e2)
  have nd: "notices d = ns"
    by (simp add: d)
  have rs: "crows d = map (\<lambda>r. \<lparr>cells = g r, status = st r, is_tatkal = f r\<rparr>) (rows df)"
    unfolding d e1 e2 by (simp add: ss bs st_def zip_rows2)
  have jd: "positions ''remarks'' hdr2 = [j]"
    using j by (simp add: hdr2_def hdr1_def positions_setitem_columns)
  have other: "\<forall>r k. k < length hdr \<and> hdr ! k \<noteq> ''status'' \<and> hdr ! k \<noteq> ''is_tatkal'' \<longrightarrow>
      cell_at (g r) k = cell_at r k"
  proof (intro allI impI)
    fix r k
    assume a: "k < length hdr \<and> hdr ! k \<noteq> ''status'' \<and> hdr ! k \<noteq> ''is_tatkal''"
    then have "k < length hdr1" "hdr1 ! k \<noteq> ''is_tatkal''"
      using length_setitem_columns [of hdr "''status''"]
      by (simp_all add: hdr1_def nth_setitem_columns)
    then have "cell_at (g r) k = cell_at (c1 r) k"
      by (simp add: g_def cell_at_setitem_row_other)
    also have "\<dots> = cell_at r k"
      using a by (simp add: c1_def cell_at_setitem_row_other)
    finally show "cell_at (g r) k = cell_at r k" .
  qed
  have tat: "\<forall>r k. k < length hdr2 \<and> hdr2 ! k = ''is_tatkal'' \<longrightarrow> cell_at (g r) k = Boolean (f r)"
    by (simp add: g_def hdr2_def cell_at_setitem_row_same)
  have sta: "\<forall>r k. k < length hdr2 \<and> hdr2 ! k = ''status'' \<longrightarrow> cell_at (g r) k = Str (st r)"
  proof (intro allI impI)
    fix r k
    assume a: "k < length hdr2 \<and> hdr2 ! k = ''status''"
    have k1: "k < length hdr1"
    proof (rule ccontr)
      assume "\<not> k < length hdr1"
      with a have "hdr2 ! k = ''is_tatkal''"
        using setitem_columns_new [of k hdr1 "''is_tatkal''"] by (simp add: hdr2_def)
      with a show False by simp
    qed
    with a have h1: "hdr1 ! k = ''status''"
      by (simp add: hdr2_def nth_setitem_columns)
    from k1 h1 have "cell_at (g r) k = cell_at (c1 r) k"
      by (simp add: g_def cell_at_setitem_row_other)
    also have "\<dots> = Str (st r)"
      using k1 h1 by (simp add: c1_def hdr1_def cell_at_setitem_row_same)
    finally show "cell_at (g r) k = Str (st r)" .
  qed
  show ?thesis
  proof (rule that [of j g f])
    show "positions ''remarks'' (normalize_columns (columns df)) = [j]"
      using j by (simp add: hdr_def)
    show "positions ''remarks'' (ccolumns d) = [j]"
      using jd cd by simp
    show "crows d = map (\<lambda>r. \<lparr>cells = g r, status = status_of (cell_at r j), is_tatkal = f r\<rparr>) (rows df)"
      using rs by (simp add: st_def)
    show "\<forall>r k. k < length (normalize_columns (columns df)) \<and>
        normalize_columns (columns df) ! k \<noteq> ''status'' \<and>
        normalize_columns (columns df) ! k \<noteq> ''is_tatkal'' \<longrightarrow> cell_at (g r) k = cell_at r k"
      using other by (simp add: hdr_def)
    show "\<forall>r k. k < length (ccolumns d) \<and> ccolumns d ! k = ''status'' \<longrightarrow>
        cell_at (g r) k = Str (status_of (cell_at r j))"
      using sta by (simp add: cd st_def)
    show "\<forall>r k. k < length (ccolumns d) \<and> ccolumns d ! k = ''is_tatkal'' \<longrightarrow>
        cell_at (g r) k = Boolean (f r)"
      using tat by (simp add: cd)
    show "(''priority'' \<notin> set (normalize_columns (columns df)) \<and> ''priority'' \<notin> set (ccolumns d) \<and>
        f = (\<lambda>r. False) \<and> notices d = [missing_priority_message]) \<or>
     (\<exists>i. positions ''priority'' (normalize_columns (columns df)) = [i] \<and>
        positions ''priority'' (ccolumns d) = [i] \<and>
        f = (\<lambda>r. tatkal_cell (cell_at r i)) \<and> notices d = [])"
      using ff by (simp add: cd hdr_def nd)
  qed
qed


lemma ex_classify: "classify ex_frame = Inr ex_classified"
  by code_simp

lemma ex_remarks_classify: "classify ex_remarks = Inr ex_remarks_classified"
  by code_simp

text \<open>
  A sheet that already has the columns \<open>Status\<close> and \<open>is_tatkal\<close>: lines 61 and 69
  overwrite their cells.
\<close>

lemma classify_overwrites:
  "classify \<lparr>columns = [''Remarks'', ''Status'', ''is_tatkal''],
             rows = [[NaN, Str ''Completed'', Boolean True]]\<rparr> =
   Inr \<lparr>ccolumns = [''remarks'', ''status'', ''is_tatkal''],
        crows = [\<lparr>cells = [NaN, Str ''Pending'', Boolean False],
                  status = ''Pending'', is_tatkal = False\<rparr>],
        notices = [missing_priority_message]\<rparr>"
  by code_simp

lemma status_of_cases: "status_of x = ''Completed'' \<or> status_of x = ''Pending''"
  by (simp add: status_of_def)

lemma status_of_Completed:
  "status_of x = ''Completed'' \<longleftrightarrow> x \<noteq> NaN \<and> strip (py_str x) \<noteq> []"
  by (simp add: status_of_def notna_def)

lemma status_of_Pending:
  "status_of x = ''Pending'' \<longleftrightarrow> \<not> (x \<noteq> NaN \<and> strip (py_str x) \<noteq> [])"
  by (simp add: status_of_def notna_def)

text \<open>The text of a number or of a boolean is never blank.\<close>

lemma digits_last: "digit_char (n mod 10) \<in> set (digits n)"
  by (subst digits.simps) simp

lemma digit_char_not_space: "\<not> isspace (digit_char (n mod 10))"
proof -
  have "n mod 10 < 10" by simp
  then show ?thesis
    by (auto simp: digit_char_def isspace_def Let_def)
qed

lemma strip_nonblank: "c \<in> set s \<Longrightarrow> \<not> isspace c \<Longrightarrow> strip s \<noteq> []"
  using strip_empty_iff [of s] by blast

lemma status_of_Number: "status_of (Number n) = ''Completed''"
proof -
  have "\<exists>c \<in> set (py_str (Number n)). \<not> isspace c"
    using digits_last digit_char_not_space by (cases "n < 0") fastforce+
  then have "strip (py_str (Number n)) \<noteq> []"
    using strip_nonblank by blast
  then show ?thesis by (simp add: status_of_def notna_def)
qed

lemma status_of_Boolean: "status_of (Boolean b) = ''Completed''"
proof -
  have "strip (py_str (Boolean b)) \<noteq> []"
    by (cases b) (simp_all add: strip_def lstrip_def rstrip_def isspace_def)
  then show ?thesis by (simp add: status_of_def notna_def)
qed

lemma status_of_NaN: "status_of NaN = ''Pending''"
  by (simp add: status_of_def notna_def)

text \<open>
  Claim C3. A classified dataset has one record for every source row and one \<open>remarks\<close>
  column, whose cells are those of the source. For every record the status is
  \<open>Completed\<close> exactly when the cell under the \<open>remarks\<close> column is present (not \<open>NaN\<close>) and
  its text is non-empty after stripping; otherwise the status is \<open>Pending\<close>. A remarks
  text of whitespace only and a missing cell give \<open>Pending\<close>; a number and a boolean
  give \<open>Completed\<close>.
\<close>

theorem status_completed_iff_remarks:
  assumes "classify df = Inr d"
  shows "\<exists>j. positions ''remarks'' (ccolumns d) = [j] \<and>
           positions ''remarks'' (normalize_columns (columns df)) = [j] \<and>
           length (crows d) = length (rows df) \<and>
           map (\<lambda>r. cell_at (cells r) j) (crows d) = map (\<lambda>r. cell_at r j) (rows df) \<and>
           (\<forall>r \<in> set (crows d).
              (status r = ''Completed'' \<longleftrightarrow>
                 cell_at (cells r) j \<noteq> NaN \<and> strip (py_str (cell_at (cells r) j)) \<noteq> []) \<and>
              (status r = ''Pending'' \<longleftrightarrow>
                 \<not> (cell_at (cells r) j \<noteq> NaN \<and> strip (py_str (cell_at (cells r) j)) \<noteq> [])) \<and>
              (\<forall>s. cell_at (cells r) j = Str s \<and> (\<forall>c \<in> set s. isspace c) \<longrightarrow>
                 status r = ''Pending'') \<and>
              (cell_at (cells r) j = NaN \<longrightarrow> status r = ''Pending'') \<and>
              (\<forall>n. cell_at (cells r) j = Number n \<longrightarrow> status r = ''Completed'') \<and>
              (\<forall>b. cell_at (cells r) j = Boolean b \<longrightarrow> status r = ''Completed''))"
proof -
  from assms obtain j f g where
    j: "positions ''remarks'' (normalize_columns (columns df)) = [j]" and
    jd: "positions ''remarks'' (ccolumns d) = [j]" and
    rs: "crows d = map (\<lambda>r. \<lparr>cells = g r, status = status_of (cell_at r j), is_tatkal = f r\<rparr>) (rows df)" and
    other: "\<forall>r k. k < length (normalize_columns (columns df)) \<and>
        normalize_columns (columns df) ! k \<noteq> ''status'' \<and>
        normalize_columns (columns df) ! k \<noteq> ''is_tatkal'' \<longrightarrow> cell_at (g r) k = cell_at r k"
    by (rule classify_Inr)
  from positions_singleD [OF j] other have gj: "\<And>r. cell_at (g r) j = cell_at r j"
    by simp
  have l: "length (crows d) = length (rows df)"
    unfolding rs by simp
  have m: "map (\<lambda>r. cell_at (cells r) j) (crows d) = map (\<lambda>r. cell_at r j) (rows df)"
    unfolding rs by (simp add: comp_def gj)
  have "\<forall>r \<in> set (crows d). status r = status_of (cell_at (cells r) j)"
    unfolding rs by (auto simp: gj)
  then have "\<forall>r \<in> set (crows d).
              (status r = ''Completed'' \<longleftrightarrow>
                 cell_at (cells r) j \<noteq> NaN \<and> strip (py_str (cell_at (cells r) j)) \<noteq> []) \<and>
              (status r = ''Pending'' \<longleftrightarrow>
                 \<not> (cell_at (cells r) j \<noteq> NaN \<and> strip (py_str (cell_at (cells r) j)) \<noteq> [])) \<and>
              (\<forall>s. cell_at (cells r) j = Str s \<and> (\<forall>c \<in> set s. isspace c) \<longrightarrow>
                 status r = ''Pending'') \<and>
              (cell_at (cells r) j = NaN \<longrightarrow> status r = ''Pending'') \<and>
              (\<forall>n. cell_at (cells r) j = Number n \<longrightarrow> status r = ''Completed'') \<and>
              (\<forall>b. cell_at (cells r) j = Boolean b \<longrightarrow> status r = ''Completed'')"
    using status_of_Number status_of_Boolean status_of_NaN
    by (auto simp: status_of_Completed status_of_Pending strip_empty_iff)
  with j jd l m show ?thesis by blast
qed

theorem status_completed_iff_remarks_witness:
  "classify ex_remarks = Inr ex_remarks_classified \<and>
   map status (crows ex_remarks_classified) =
     [''Completed'', ''Pending'', ''Pending'', ''Completed'', ''Completed''] \<and>
   (\<exists>j. positions ''remarks'' (ccolumns ex_remarks_classified) = [j] \<and>
           positions ''remarks'' (normalize_columns (columns ex_remarks)) = [j] \<and>
           length (crows ex_remarks_classified) = length (rows ex_remarks) \<and>
           map (\<lambda>r. cell_at (cells r) j) (crows ex_remarks_classified) =
             map (\<lambda>r. cell_at r j) (rows ex_remarks) \<and>
           (\<forall>r \<in> set (crows ex_remarks_classified).
              (status r = ''Completed'' \<longleftrightarrow>
                 cell_at (cells r) j \<noteq> NaN \<and> strip (py_str (cell_at (cells r) j)) \<noteq> []) \<and>
              (status r = ''Pending'' \<longleftrightarrow>
                 \<not> (cell_at (cells r) j \<noteq> NaN \<and> strip (py_str (cell_at (cells r) j)) \<noteq> [])) \<and>
              (\<forall>s. cell_at (cells r) j = Str s \<and> (\<forall>c \<in> set s. isspace c) \<longrightarrow>
                 status r = ''Pending'') \<and>
              (cell_at (cells r) j = NaN \<longrightarrow> status r = ''Pending'') \<and>
              (\<forall>n. cell_at (cells r) j = Number n \<longrightarrow> status r = ''Completed'') \<and>
              (\<forall>b. cell_at (cells r) j = Boolean b \<longrightarrow> status r = ''Completed'')))"
proof -
  have s: "map status (crows ex_remarks_classified) =
     [''Completed'', ''Pending'', ''Pending'', ''Completed'', ''Completed'']"
    by (simp add: ex_remarks_classified_def)
  from ex_remarks_classify s status_completed_iff_remarks [OF ex_remarks_classify]
  show ?thesis by (intro conjI)
qed

text \<open>
  Claim C5. In a classified dataset a record with \<open>is_tatkal\<close> true has, under the one
  \<open>priority\<close> column, a text that stripped and lower-cased is \<open>tatkal\<close>. Conversely, when
  the header has a \<open>priority\<close> column, every record whose priority text stripped and
  lower-cased is \<open>tatkal\<close> has \<open>is_tatkal\<close> true.
\<close>

theorem is_tatkal_iff_priority:
  assumes "classify df = Inr d"
  shows "(\<forall>r \<in> set (crows d). is_tatkal r \<longrightarrow>
            (\<exists>i s. positions ''priority'' (ccolumns d) = [i] \<and>
                   cell_at (cells r) i = Str s \<and> lower (strip s) = ''tatkal'')) \<and>
         (''priority'' \<in> set (ccolumns d) \<longrightarrow>
            (\<exists>i. positions ''priority'' (ccolumns d) = [i] \<and>
                 (\<forall>r \<in> set (crows d). \<forall>s.
                     cell_at (cells r) i = Str s \<and> lower (strip s) = ''tatkal'' \<longrightarrow> is_tatkal r)))"
proof -
  from assms obtain j f g where
    rs: "crows d = map (\<lambda>r. \<lparr>cells = g r, status = status_of (cell_at r j), is_tatkal = f r\<rparr>) (rows df)" and
    other: "\<forall>r k. k < length (normalize_columns (columns df)) \<and>
        normalize_columns (columns df) ! k \<noteq> ''status'' \<and>
        normalize_columns (columns df) ! k \<noteq> ''is_tatkal'' \<longrightarrow> cell_at (g r) k = cell_at r k" and
    f: "(''priority'' \<notin> set (normalize_columns (columns df)) \<and> ''priority'' \<notin> set (ccolumns d) \<and>
          f = (\<lambda>r. False) \<and> notices d = [missing_priority_message]) \<or>
        (\<exists>i. positions ''priority'' (normalize_columns (columns df)) = [i] \<and>
          positions ''priority'' (ccolumns d) = [i] \<and>
          f = (\<lambda>r. tatkal_cell (cell_at r i)) \<and> notices d = [])"
    by (rule classify_Inr)
  from f show ?thesis
  proof
    assume a: "''priority'' \<notin> set (normalize_columns (columns df)) \<and> ''priority'' \<notin> set (ccolumns d) \<and>
          f = (\<lambda>r. False) \<and> notices d = [missing_priority_message]"
    then have "\<forall>r \<in> set (crows d). \<not> is_tatkal r"
      unfolding rs by auto
    with a show ?thesis by simp
  next
    assume "\<exists>i. positions ''priority'' (normalize_columns (columns df)) = [i] \<and>
          positions ''priority'' (ccolumns d) = [i] \<and>
          f = (\<lambda>r. tatkal_cell (cell_at r i)) \<and> notices d = []"
    then obtain i where i0: "positions ''priority'' (normalize_columns (columns df)) = [i]"
      and i: "positions ''priority'' (ccolumns d) = [i]"
      and fi: "f = (\<lambda>r. tatkal_cell (cell_at r i))" by auto
    from positions_singleD [OF i0] other have gi: "\<And>r. cell_at (g r) i = cell_at r i"
      by simp
    have "\<forall>r \<in> set (crows d). is_tatkal r = tatkal_cell (cell_at (cells r) i)"
      unfolding rs by (auto simp: fi gi)
    then have "\<forall>r \<in> set (crows d).
        is_tatkal r = (\<exists>s. cell_at (cells r) i = Str s \<and> lower (strip s) = ''tatkal'')"
      by (simp add: tatkal_cell_iff)
    with i show ?thesis by auto
  qed
qed

theorem is_tatkal_iff_priority_witness:
  "classify ex_frame = Inr ex_classified \<and>
   is_tatkal (crows ex_classified ! 1) \<and>
   ''priority'' \<in> set (ccolumns ex_classified) \<and>
   (\<exists>i s. positions ''priority'' (ccolumns ex_classified) = [i] \<and>
       cell_at (cells (crows ex_classified ! 1)) i = Str s \<and> lower (strip s) = ''tatkal'')"
proof -
  have m: "crows ex_classified ! 1 \<in> set (crows ex_classified)"
    by (simp add: ex_classified_def)
  have t: "is_tatkal (crows ex_classified ! 1)"
    by (simp add: ex_classified_def)
  have p: "''priority'' \<in> set (ccolumns ex_classified)"
    by (simp add: ex_classified_def)
  from is_tatkal_iff_priority [OF ex_classify] m t
  have "\<exists>i s. positions ''priority'' (ccolumns ex_classified) = [i] \<and>
       cell_at (cells (crows ex_classified ! 1)) i = Str s \<and> lower (strip s) = ''tatkal''"
    by blast
  with ex_classify t p show ?thesis by blast
qed

text \<open>
  A missing priority cell. In a classified dataset it gives \<open>is_tatkal\<close> false. But when
  the table has a record and no cell of the one \<open>priority\<close> column is a text, the column
  is numeric, \<open>.str\<close> raises on line 66 and there is no classified dataset.
\<close>

lemma missing_priority_cell_not_tatkal:
  assumes "classify df = Inr d" and "positions ''priority'' (ccolumns d) = [i]"
    and "r \<in> set (crows d)" and "cell_at (cells r) i = NaN"
  shows "\<not> is_tatkal r"
proof -
  from assms(1) obtain j f g where
    rs: "crows d = map (\<lambda>r. \<lparr>cells = g r, status = status_of (cell_at r j), is_tatkal = f r\<rparr>) (rows df)" and
    other: "\<forall>r k. k < length (normalize_columns (columns df)) \<and>
        normalize_columns (columns df) ! k \<noteq> ''status'' \<and>
        normalize_columns (columns df) ! k \<noteq> ''is_tatkal'' \<longrightarrow> cell_at (g r) k = cell_at r k" and
    f: "(''priority'' \<notin> set (normalize_columns (columns df)) \<and> ''priority'' \<notin> set (ccolumns d) \<and>
          f = (\<lambda>r. False) \<and> notices d = [missing_priority_message]) \<or>
        (\<exists>i. positions ''priority'' (normalize_columns (columns df)) = [i] \<and>
          positions ''priority'' (ccolumns d) = [i] \<and>
          f = (\<lambda>r. tatkal_cell (cell_at r i)) \<and> notices d = [])"
    by (rule classify_Inr)
  from assms(3) obtain r0 where r: "cells r = g r0" "is_tatkal r = f r0"
    unfolding rs by auto
  from f show ?thesis
  proof
    assume "''priority'' \<notin> set (normalize_columns (columns df)) \<and> ''priority'' \<notin> set (ccolumns d) \<and>
          f = (\<lambda>r. False) \<and> notices d = [missing_priority_message]"
    with r show ?thesis by simp
  next
    assume "\<exists>i. positions ''priority'' (normalize_columns (columns df)) = [i] \<and>
          positions ''priority'' (ccolumns d) = [i] \<and>
          f = (\<lambda>r. tatkal_cell (cell_at r i)) \<and> notices d = []"
    with assms(2) have i0: "positions ''priority'' (normalize_columns (columns df)) = [i]"
      and fi: "f = (\<lambda>r. tatkal_cell (cell_at r i))" by auto
    from positions_singleD [OF i0] other have "cell_at (g r0) i = cell_at r0 i"
      by simp
    with r assms(4) fi show ?thesis
      by (simp add: tatkal_cell_iff)
  qed
qed

lemma blank_priority_column_fails:
  assumes "positions ''priority'' (normalize_columns (columns df)) = [i]"
    and "positions ''remarks'' (normalize_columns (columns df)) = [j]"
    and "rows df \<noteq> []" and "\<forall>r \<in> set (rows df). \<not> is_Str (cell_at r i)"
  shows "classify df = Inl AttributeError"
proof -
  define df' where "df' = df\<lparr>columns := normalize_columns (columns df)\<rparr>"
  define ss where "ss = map (\<lambda>r. status_of (cell_at r j)) (rows df')"
  have s: "classify_status df' = Inr ss"
    unfolding ss_def by (rule classify_status_single) (simp add: df'_def assms(2))
  have p: "''priority'' \<in> set (columns df')"
    using positions_singleD [OF assms(1)] by (simp add: df'_def)
  define df1 where "df1 = setitem df' ''status'' (map Str ss)"
  have e: "df1 = \<lparr>columns = setitem_columns (columns df') ''status'',
      rows = map (\<lambda>r. setitem_row (columns df') ''status'' r (Str (status_of (cell_at r j))))
        (rows df')\<rparr>"
    using setitem_map [of df' "''status''" "\<lambda>r. Str (status_of (cell_at r j))"]
    by (simp add: df1_def ss_def comp_def)
  have p1: "''priority'' \<in> set (columns df1)"
    using p by (simp add: e set_setitem_columns)
  have i1: "positions ''priority'' (columns df1) = [i]"
    using assms(1) by (simp add: e df'_def positions_setitem_columns)
  have g: "getitem df1 ''priority'' = Inr (Series (column_values df1 i))"
    by (simp add: getitem_def i1)
  from positions_singleD [OF assms(1)]
  have c: "\<And>r v. cell_at (setitem_row (normalize_columns (columns df)) ''status'' r v) i =
      cell_at r i"
    by (simp add: cell_at_setitem_row_other)
  have "str_accessor (column_values df1 i) = Inl AttributeError"
    using assms(3,4) by (simp add: str_accessor_def column_values_def e c df'_def)
  then have "tatkal_series (column_values df1 i) = Inl AttributeError"
    by (simp add: tatkal_series_def)
  with p1 g have "classify_tatkal df1 = Inl AttributeError"
    by (simp add: classify_tatkal_def)
  with s show ?thesis
    by (simp add: classify_def Let_def df'_def [symmetric] df1_def [symmetric])
qed

text \<open>
  Claim C10 says that with a \<open>priority\<close> column present every record whose priority cell
  is missing gets \<open>is_tatkal\<close> false and nothing is raised. On the table of one record
  with a blank priority the code raises \<open>AttributeError\<close> and the run ends in the handler,
  while the branch for an absent column, lines 67 to 69, gives false for every record.
\<close>

theorem blank_priority_column_raises:
  "classify \<lparr>columns = [''Remarks'', ''Priority''], rows = [[Str ''done'', NaN]]\<rparr> = Inl AttributeError \<and>
   pipeline \<lparr>columns = [''Remarks'', ''Priority''], rows = [[Str ''done'', NaN]]\<rparr> = Inl AttributeError"
  by code_simp

section \<open>Aggregation: the counts\<close>

lemma length_filter_status:
  assumes "\<forall>r \<in> set rs. status r = ''Completed'' \<or> status r = ''Pending''"
  shows "length (filter (\<lambda>r. status r = ''Completed'') rs) +
         length (filter (\<lambda>r. status r = ''Pending'') rs) = length rs"
  using assms by (induction rs) auto

lemma overall_summary_Inr:
  "overall_summary d = Inr m \<Longrightarrow>
   n_total m = total_tasks d \<and> n_completed m = completed_tasks d \<and> n_pending m = pending_tasks d"
  by (auto simp: overall_summary_def split: sum.splits)

lemma tatkal_summary_Inr:
  "tatkal_summary d = Inr (Some m) \<Longrightarrow>
   n_total m = total_tatkal_tasks d \<and> n_completed m = completed_tatkal_tasks d \<and>
   n_pending m = pending_tatkal_tasks d"
  by (auto simp: tatkal_summary_def split: sum.splits if_splits)

text \<open>
  Claim C4. For a classified dataset the total is the number of source rows, completed
  plus pending is the total, and pending counts the records of status \<open>Pending\<close>; the
  same holds for the Tatkal counts over the Tatkal rows; every Tatkal row is a record
  of the dataset with \<open>is_tatkal\<close> true. The metrics that the page shows, the overall
  ones and the Tatkal ones when there is a Tatkal row, are these counts.
\<close>

theorem counts_partition:
  assumes "classify df = Inr d"
  shows "total_tasks d = int (length (rows df)) \<and>
         completed_tasks d + pending_tasks d = total_tasks d \<and>
         pending_tasks d = int (length (filter (\<lambda>r. status r = ''Pending'') (crows d))) \<and>
         completed_tatkal_tasks d + pending_tatkal_tasks d = total_tatkal_tasks d \<and>
         pending_tatkal_tasks d =
           int (length (filter (\<lambda>r. status r = ''Pending'') (crows (tatkal_df d)))) \<and>
         (\<forall>r \<in> set (crows (tatkal_df d)). r \<in> set (crows d) \<and> is_tatkal r) \<and>
         total_tatkal_tasks d \<le> total_tasks d \<and>
         (\<forall>m. overall_summary d = Inr m \<longrightarrow>
              n_total m = total_tasks d \<and> n_completed m + n_pending m = n_total m) \<and>
         (\<forall>m. tatkal_summary d = Inr (Some m) \<longrightarrow>
              n_total m = total_tatkal_tasks d \<and> n_completed m + n_pending m = n_total m)"
proof -
  from assms obtain j f g where
    rs: "crows d = map (\<lambda>r. \<lparr>cells = g r, status = status_of (cell_at r j), is_tatkal = f r\<rparr>) (rows df)"
    by (rule classify_Inr)
  have st: "\<forall>r \<in> set (crows d). status r = ''Completed'' \<or> status r = ''Pending''"
    unfolding rs using status_of_cases by auto
  then have st': "\<forall>r \<in> set (crows (tatkal_df d)). status r = ''Completed'' \<or> status r = ''Pending''"
    by (simp add: tatkal_df_def)
  have 1: "total_tasks d = int (length (rows df))"
    by (simp add: total_tasks_def rs)
  have 2: "completed_tasks d + pending_tasks d = total_tasks d"
    by (simp add: pending_tasks_def)
  have 3: "pending_tasks d = int (length (filter (\<lambda>r. status r = ''Pending'') (crows d)))"
    using length_filter_status [OF st] by (simp add: pending_tasks_def total_tasks_def completed_tasks_def)
  have 4: "completed_tatkal_tasks d + pending_tatkal_tasks d = total_tatkal_tasks d"
    by (simp add: pending_tatkal_tasks_def)
  have 5: "pending_tatkal_tasks d =
           int (length (filter (\<lambda>r. status r = ''Pending'') (crows (tatkal_df d))))"
    using length_filter_status [OF st']
    by (simp add: pending_tatkal_tasks_def total_tatkal_tasks_def completed_tatkal_tasks_def)
  have 6: "\<forall>r \<in> set (crows (tatkal_df d)). r \<in> set (crows d) \<and> is_tatkal r"
    by (simp add: tatkal_df_def)
  have 7: "total_tatkal_tasks d \<le> total_tasks d"
    by (simp add: total_tatkal_tasks_def total_tasks_def tatkal_df_def)
  have 8: "\<forall>m. overall_summary d = Inr m \<longrightarrow>
              n_total m = total_tasks d \<and> n_completed m + n_pending m = n_total m"
    using 2 by (auto dest!: overall_summary_Inr)
  have 9: "\<forall>m. tatkal_summary d = Inr (Some m) \<longrightarrow>
              n_total m = total_tatkal_tasks d \<and> n_completed m + n_pending m = n_total m"
    using 4 by (auto dest!: tatkal_summary_Inr)
  from 1 2 3 4 5 6 7 8 9 show ?thesis by blast
qed

theorem counts_partition_witness:
  "classify ex_frame = Inr ex_classified \<and>
   total_tasks ex_classified = 2 \<and> completed_tasks ex_classified = 1 \<and>
   pending_tasks ex_classified = 1 \<and> total_tatkal_tasks ex_classified = 1 \<and>
   completed_tatkal_tasks ex_classified = 0 \<and> pending_tatkal_tasks ex_classified = 1 \<and>
   completed_tasks ex_classified + pending_tasks ex_classified = total_tasks ex_classified \<and>
   completed_tatkal_tasks ex_classified + pending_tatkal_tasks ex_classified =
     total_tatkal_tasks ex_classified"
proof -
  have c: "completed_tasks ex_classified = 1"
    by (simp add: completed_tasks_def ex_classified_def)
  have t: "completed_tatkal_tasks ex_classified = 0"
    by (simp add: completed_tatkal_tasks_def tatkal_df_def ex_classified_def)
  have n: "total_tatkal_tasks ex_classified = 1"
    by (simp add: total_tatkal_tasks_def tatkal_df_def ex_classified_def)
  have r: "rows ex_frame = [[Str ''done'', NaN], [Str '' '', Str '' TATKAL '']]"
    by (simp add: ex_frame_def)
  from counts_partition [OF ex_classify] c t n r ex_classify show ?thesis by simp
qed

text \<open>No table of zero rows passes the pipeline.\<close>

lemma empty_dataset_fails:
  assumes "rows df = []"
  shows "\<exists>e. pipeline df = Inl e"
proof (cases "classify df")
  case (Inl e)
  then show ?thesis by (simp add: pipeline_def)
next
  case (Inr d)
  then obtain j f g where
    "crows d = map (\<lambda>r. \<lparr>cells = g r, status = status_of (cell_at r j), is_tatkal = f r\<rparr>) (rows df)"
    by (rule classify_Inr)
  with assms have "total_tasks d = 0" by (simp add: total_tasks_def)
  then have "overall_summary d = Inl ZeroDivisionError"
    by (simp add: overall_summary_def percentage_def)
  with Inr show ?thesis by (simp add: pipeline_def)
qed

text \<open>
  Claim C1 says that a dataset of zero records passes the pipeline with all counts
  zero and no error. The counts are zero, but lines 81 and 83 divide by the total
  with no guard, while the Tatkal metrics are computed under
  \<open>if total_tatkal_tasks > 0\<close>: the header-only table of the six known columns ends in
  \<open>ZeroDivisionError\<close>.
\<close>

theorem empty_dataset_raises:
  "pipeline \<lparr>columns = [''Sr.No.'', ''D.O.R'', ''Completion Date'', ''Action Taken'', ''Remarks'', ''Priority''],
             rows = []\<rparr> = Inl ZeroDivisionError"
  by code_simp

section \<open>Missing columns\<close>




text \<open>
  Claim C9. When the normalized header has no \<open>remarks\<close> column, line 61 raises
  \<open>KeyError\<close>: classification gives no dataset, the pipeline gives no metrics, and the
  run of the application ends in the handler with that error.
\<close>

theorem missing_remarks_aborts:
  assumes "''remarks'' \<notin> set (normalize_columns (columns df))"
  shows "classify df = Inl (KeyError ''remarks'') \<and>
         pipeline df = Inl (KeyError ''remarks'') \<and>
         (url \<noteq> [] \<and> create_google_sheet_csv_url url = Some u \<and> read_csv u = Inr df \<longrightarrow>
          app read_csv url = Failed (KeyError ''remarks''))"
proof -
  have c: "classify df = Inl (KeyError ''remarks'')"
    using assms by (simp add: classify_def Let_def classify_status_missing)
  then have p: "pipeline df = Inl (KeyError ''remarks'')"
    by (simp add: pipeline_def)
  then show ?thesis using c by (simp add: app_def)
qed

theorem missing_remarks_aborts_witness:
  "''remarks'' \<notin> set (normalize_columns (columns ex_no_remarks)) \<and>
   ''priority'' \<in> set (normalize_columns (columns ex_no_remarks)) \<and>
   sheet_url \<noteq> [] \<and>
   create_google_sheet_csv_url sheet_url =
     Some ''https://docs.google.com/spreadsheets/d/1qwfADBf4R2owb9LbANpUiOZ2ZoQ9Tk9IpnPz1KAPpYQ/export?format=csv'' \<and>
   pipeline ex_no_remarks = Inl (KeyError ''remarks'') \<and>
   app (\<lambda>u. Inr ex_no_remarks) sheet_url = Failed (KeyError ''remarks'')"
proof -
  have h: "normalize_columns (columns ex_no_remarks) = [''name'', ''priority'']"
    by code_simp
  have r: "''remarks'' \<notin> set (normalize_columns (columns ex_no_remarks))"
    unfolding h by simp
  have p: "''priority'' \<in> set (normalize_columns (columns ex_no_remarks))"
    unfolding h by simp
  have s: "sheet_url \<noteq> []" by (simp add: sheet_url_def)
  have u: "create_google_sheet_csv_url sheet_url =
     Some ''https://docs.google.com/spreadsheets/d/1qwfADBf4R2owb9LbANpUiOZ2ZoQ9Tk9IpnPz1KAPpYQ/export?format=csv''"
    by code_simp
  from missing_remarks_aborts [OF r, where url = sheet_url and read_csv = "\<lambda>u. Inr ex_no_remarks"]
    r p s u
  show ?thesis by simp
qed

end
